theory Spec2Isabelle
  imports Complex_Main
begin

section \<open>Vector primitives of boxes/vectors.py\<close>

text \<open>
  The module works on Python floats. They are idealised here as the real numbers:
  rounding, overflow, signed zeros and NaN are outside the model. Everything else a
  Python operation can do is a branch of the model: a float division whose divisor is
  zero raises ZeroDivisionError, \<open>math.asin\<close> outside \<open>[-1, 1]\<close> raises ValueError,
  an index past the end of a list raises IndexError.
\<close>

datatype py_error = ZeroDivisionError | ValueError | IndexError

type_synonym vector = "real \<times> real"

text \<open>Sequencing of fallible steps: the first error raised is the result.\<close>

definition bind_err :: "py_error + 'a \<Rightarrow> ('a \<Rightarrow> py_error + 'b) \<Rightarrow> py_error + 'b" where
  "bind_err r f = (case r of Inl e \<Rightarrow> Inl e | Inr x \<Rightarrow> f x)"

text \<open>Python's \<open>a / b\<close> on floats.\<close>

definition py_div :: "real \<Rightarrow> real \<Rightarrow> py_error + real" where
  "py_div a b = (if b = 0 then Inl ZeroDivisionError else Inr (a / b))"

text \<open>
  \<^verbatim>\<open>
  def normalize(v):
      l = (v[0] ** 2 + v[1] ** 2) ** 0.5
      if l == 0.0:
          return (0.0, 0.0)
      return (v[0] / l, v[1] / l)
  \<close>
\<close>

definition normalize :: "vector \<Rightarrow> py_error + vector" where
  "normalize v =
     (let l = sqrt ((fst v)\<^sup>2 + (snd v)\<^sup>2)
      in if l = 0 then Inr (0, 0)
         else bind_err (py_div (fst v) l) (\<lambda>a.
              bind_err (py_div (snd v) l) (\<lambda>b. Inr (a, b))))"

definition vlength :: "vector \<Rightarrow> real" where
  "vlength v = sqrt ((fst v)\<^sup>2 + (snd v)\<^sup>2)"

text \<open>\<open>vdiff p1 p2\<close> is the vector from \<open>p1\<close> to \<open>p2\<close>.\<close>

definition vdiff :: "vector \<Rightarrow> vector \<Rightarrow> vector" where
  "vdiff p1 p2 = (fst p2 - fst p1, snd p2 - snd p1)"

definition vadd :: "vector \<Rightarrow> vector \<Rightarrow> vector" where
  "vadd v1 v2 = (fst v1 + fst v2, snd v1 + snd v2)"

definition vorthogonal :: "vector \<Rightarrow> vector" where
  "vorthogonal v = (- snd v, fst v)"

definition vscalmul :: "vector \<Rightarrow> real \<Rightarrow> vector" where
  "vscalmul v a = (a * fst v, a * snd v)"

definition dotproduct :: "vector \<Rightarrow> vector \<Rightarrow> real" where
  "dotproduct v1 v2 = fst v1 * fst v2 + snd v1 * snd v2"

section \<open>The kerf offset\<close>

text \<open>
  Python's \<open>xs[i]\<close>: a negative index counts from the end, an index out of range
  raises IndexError.
\<close>

definition py_nth :: "'a list \<Rightarrow> int \<Rightarrow> py_error + 'a" where
  "py_nth xs i =
     (if 0 \<le> i \<and> i < int (length xs) then Inr (xs ! nat i)
      else if i < 0 \<and> - int (length xs) \<le> i then Inr (xs ! nat (int (length xs) + i))
      else Inl IndexError)"

text \<open>
  The body of the loop of \<open>kerf\<close> for the index \<open>i\<close>, up to the value appended:
  \<^verbatim>\<open>
  v1 = vorthogonal(normalize(vdiff(points[i - 1], points[i])))
  v2 = vorthogonal(normalize(vdiff(points[i], points[(i + 1) % lp])))
  if not closed:
      if i == 0:
          v1 = v2
      if i == lp - 1:
          v2 = v1
  d = normalize(vadd(v1, v2))
  cos_alpha = dotproduct(v1, d)
  result.append(vadd(points[i], vscalmul(d, -k / cos_alpha)))
  \<close>
\<close>

definition kerf_point :: "vector list \<Rightarrow> real \<Rightarrow> bool \<Rightarrow> nat \<Rightarrow> py_error + vector" where
  "kerf_point points k closed' i =
     (let lp = int (length points) in
      bind_err (py_nth points (int i - 1)) (\<lambda>p_prev.
      bind_err (py_nth points (int i)) (\<lambda>p.
      bind_err (normalize (vdiff p_prev p)) (\<lambda>n1.
      bind_err (py_nth points ((int i + 1) mod lp)) (\<lambda>p_next.
      bind_err (normalize (vdiff p p_next)) (\<lambda>n2.
      let v1 = vorthogonal n1;
          v2 = vorthogonal n2;
          v1 = (if \<not> closed' \<and> int i = 0 then v2 else v1);
          v2 = (if \<not> closed' \<and> int i = lp - 1 then v1 else v2)
      in bind_err (normalize (vadd v1 v2)) (\<lambda>d.
         let cos_alpha = dotproduct v1 d
         in bind_err (py_div (- k) cos_alpha) (\<lambda>q.
            Inr (vadd p (vscalmul d q))))))))))"

text \<open>
  The loop \<open>for i in range(len(points))\<close>: \<open>result\<close> grows by one point per index,
  and an exception raised for one index ends the call.
\<close>

fun kerf_loop :: "vector list \<Rightarrow> real \<Rightarrow> bool \<Rightarrow> nat list \<Rightarrow> vector list \<Rightarrow> py_error + vector list" where
  "kerf_loop points k closed' [] result = Inr result"
| "kerf_loop points k closed' (i # rest) result =
     bind_err (kerf_point points k closed' i)
       (\<lambda>p. kerf_loop points k closed' rest (result @ [p]))"

definition kerf :: "vector list \<Rightarrow> real \<Rightarrow> bool \<Rightarrow> py_error + vector list" where
  "kerf points k closed' = kerf_loop points k closed' [0..<length points] []"

section \<open>The offset as the specification words it\<close>

text \<open>
  These definitions follow the algorithm of the specification (steps 1 to 6), not the
  code: the code is compared with them below. \<open>spec_normalize\<close> scales to unit length
  and sends the zero vector to itself; \<open>spec_edge_normal a b\<close> is the unit orthogonal
  of the edge from \<open>a\<close> to \<open>b\<close>; indices are taken modulo \<open>n\<close>, and an open path uses
  its one edge normal twice at either end.
\<close>

definition spec_normalize :: "vector \<Rightarrow> vector" where
  "spec_normalize v = (if vlength v = 0 then (0, 0) else vscalmul v (1 / vlength v))"

definition spec_edge_normal :: "vector \<Rightarrow> vector \<Rightarrow> vector" where
  "spec_edge_normal a b = vorthogonal (spec_normalize (vdiff a b))"

definition spec_v1 :: "vector list \<Rightarrow> bool \<Rightarrow> nat \<Rightarrow> vector" where
  "spec_v1 points closed' i =
     (let n = length points
      in if \<not> closed' \<and> i = 0
         then spec_edge_normal (points ! i) (points ! ((i + 1) mod n))
         else spec_edge_normal (points ! ((i + n - 1) mod n)) (points ! i))"

definition spec_v2 :: "vector list \<Rightarrow> bool \<Rightarrow> nat \<Rightarrow> vector" where
  "spec_v2 points closed' i =
     (let n = length points
      in if \<not> closed' \<and> i = n - 1
         then spec_v1 points closed' i
         else spec_edge_normal (points ! i) (points ! ((i + 1) mod n)))"

definition spec_d :: "vector list \<Rightarrow> bool \<Rightarrow> nat \<Rightarrow> vector" where
  "spec_d points closed' i =
     spec_normalize (vadd (spec_v1 points closed' i) (spec_v2 points closed' i))"

definition spec_cos_half_angle :: "vector list \<Rightarrow> bool \<Rightarrow> nat \<Rightarrow> real" where
  "spec_cos_half_angle points closed' i =
     dotproduct (spec_v1 points closed' i) (spec_d points closed' i)"

definition spec_output :: "vector list \<Rightarrow> real \<Rightarrow> bool \<Rightarrow> nat \<Rightarrow> vector" where
  "spec_output points k closed' i =
     vadd (points ! i)
       (vscalmul (spec_d points closed' i) (- k / spec_cos_half_angle points closed' i))"

text \<open>
  The edges of a path: a closed path of \<open>n\<close> points has \<open>n\<close> of them, the last one back
  to the first point; an open path has \<open>n - 1\<close>.
\<close>

definition edges_nondegenerate :: "vector list \<Rightarrow> bool \<Rightarrow> bool" where
  "edges_nondegenerate points closed' =
     (\<forall>i < length points.
        (closed' \<or> i + 1 < length points) \<longrightarrow>
        points ! i \<noteq> points ! ((i + 1) mod length points))"

text \<open>The concrete paths of the specification's three scenarios.\<close>

definition unit_square :: "vector list" where
  "unit_square = [(0, 0), (1, 0), (1, 1), (0, 1)]"

definition two_point_path :: "vector list" where
  "two_point_path = [(0, 0), (1, 0)]"

definition turn_back_path :: "vector list" where
  "turn_back_path = [(0, 0), (1, 0), (0, 0)]"

section \<open>Tangent to a circle\<close>

text \<open>
  \<open>math.asin\<close> raises ValueError (math domain error) outside \<open>[-1, 1]\<close>;
  \<open>math.atan2\<close> is total, with values in \<open>(-pi, pi]\<close>.
\<close>

definition py_asin :: "real \<Rightarrow> py_error + real" where
  "py_asin x = (if - 1 \<le> x \<and> x \<le> 1 then Inr (arcsin x) else Inl ValueError)"

definition py_atan2 :: "real \<Rightarrow> real \<Rightarrow> real" where
  "py_atan2 y x =
     (if 0 < x then arctan (y / x)
      else if x < 0 \<and> 0 \<le> y then arctan (y / x) + pi
      else if x < 0 then arctan (y / x) - pi
      else if 0 < y then pi / 2
      else if y < 0 then - (pi / 2)
      else 0)"

text \<open>
  \<^verbatim>\<open>
  def tangent(x, y, r):
      l1 = vlength((x, y))
      a1 = math.atan2(y, x)
      a2 = math.asin(r / l1)
      l2 = math.cos(a2) * l1
      return (a1 + a2, l2)
  \<close>
\<close>

definition tangent :: "real \<Rightarrow> real \<Rightarrow> real \<Rightarrow> py_error + vector" where
  "tangent x y r =
     (let l1 = vlength (x, y);
          a1 = py_atan2 y x
      in bind_err (py_div r l1) (\<lambda>q.
         bind_err (py_asin q) (\<lambda>a2.
         let l2 = cos a2 * l1
         in Inr (a1 + a2, l2))))"

definition circlepoint :: "real \<Rightarrow> real \<Rightarrow> vector" where
  "circlepoint r a = (r * cos a, r * sin a)"

text \<open>
  A convex regular polygon as a closed path: \<open>n\<close> points on the circle of radius \<open>R\<close>
  around \<open>c\<close>, starting at the angle \<open>a\<close> and going round once in steps of
  \<open>2 pi / n\<close>, counter-clockwise or clockwise.
\<close>

definition turn_sign :: "bool \<Rightarrow> real" where
  "turn_sign ccw = (if ccw then 1 else - 1)"

definition polygon_angle :: "real \<Rightarrow> nat \<Rightarrow> bool \<Rightarrow> nat \<Rightarrow> real" where
  "polygon_angle a n ccw i = a + turn_sign ccw * (2 * pi / real n) * real i"

definition regular_polygon :: "vector \<Rightarrow> real \<Rightarrow> real \<Rightarrow> nat \<Rightarrow> bool \<Rightarrow> vector list" where
  "regular_polygon c R a n ccw =
     map (\<lambda>i. vadd c (circlepoint R (polygon_angle a n ccw i))) [0..<n]"

section \<open>Affine matrices\<close>

text \<open>
  A matrix is a list of rows, a point a list of two floats.
  \<^verbatim>\<open>
  def vtransl(v, m):
      m0, m1 = m
      return [m0[0] * v[0] + m0[1] * v[1] + m0[2],
              m1[0] * v[0] + m1[1] * v[1] + m1[2]]
  \<close>
  Unpacking a list that has not exactly two rows raises ValueError.
\<close>

definition vtransl_row :: "real list \<Rightarrow> real list \<Rightarrow> py_error + real" where
  "vtransl_row row v =
     bind_err (py_nth row 0) (\<lambda>a.
     bind_err (py_nth v 0) (\<lambda>x.
     bind_err (py_nth row 1) (\<lambda>b.
     bind_err (py_nth v 1) (\<lambda>y.
     bind_err (py_nth row 2) (\<lambda>c.
     Inr (a * x + b * y + c))))))"

definition vtransl :: "real list \<Rightarrow> real list list \<Rightarrow> py_error + real list" where
  "vtransl v m =
     (case m of
        [m0, m1] \<Rightarrow>
          bind_err (vtransl_row m0 v) (\<lambda>x'.
          bind_err (vtransl_row m1 v) (\<lambda>y'.
          Inr [x', y']))
      | _ \<Rightarrow> Inl ValueError)"

text \<open>A \<open>for\<close> loop over a list whose body may raise.\<close>

fun for_each :: "'a list \<Rightarrow> ('a \<Rightarrow> 's \<Rightarrow> py_error + 's) \<Rightarrow> 's \<Rightarrow> py_error + 's" where
  "for_each [] body s = Inr s"
| "for_each (x # xs) body s = bind_err (body x s) (for_each xs body)"

text \<open>
  \<^verbatim>\<open>
  def mmul(m0, m1):
      result = [[0.0, ] * len(m0[0]) for i in range(len(m0))]
      for i in range(len(m0[0])):
          for j in range(len(m0)):
              for k in range(len(m0)):
                  result[j][i] += m0[k][i] * m1[j][k]
      return result
  \<close>
  \<open>mmul_step\<close> is the assignment in the innermost loop. The rows of \<open>result\<close> are
  separate lists, so the assignment changes the one entry \<open>result[j][i]\<close>.
\<close>

definition mmul_step ::
  "real list list \<Rightarrow> real list list \<Rightarrow> nat \<Rightarrow> nat \<Rightarrow> nat \<Rightarrow> real list list \<Rightarrow> py_error + real list list" where
  "mmul_step m0 m1 i j k result =
     bind_err (py_nth result (int j)) (\<lambda>row.
     bind_err (py_nth row (int i)) (\<lambda>old.
     bind_err (py_nth m0 (int k)) (\<lambda>m0k.
     bind_err (py_nth m0k (int i)) (\<lambda>a.
     bind_err (py_nth m1 (int j)) (\<lambda>m1j.
     bind_err (py_nth m1j (int k)) (\<lambda>b.
     Inr (result [j := row [i := old + a * b]])))))))"

definition mmul :: "real list list \<Rightarrow> real list list \<Rightarrow> py_error + real list list" where
  "mmul m0 m1 =
     bind_err (py_nth m0 0) (\<lambda>m00.
       let result = replicate (length m0) (replicate (length m00) 0)
       in for_each [0..<length m00] (\<lambda>i.
            for_each [0..<length m0] (\<lambda>j.
              for_each [0..<length m0] (\<lambda>k.
                mmul_step m0 m1 i j k))) result)"

section \<open>Properties of the vector primitives\<close>

lemma bind_err_simps:
  "bind_err (Inl e) f = Inl e"
  "bind_err (Inr x) f = f x"
  by (simp_all add: bind_err_def)

text \<open>The guard on \<open>l\<close> makes both divisions of \<open>normalize\<close> safe: it never raises.\<close>

lemma normalize_value:
  "normalize v = Inr (fst v / vlength v, snd v / vlength v)"
  by (simp add: normalize_def vlength_def py_div_def bind_err_simps Let_def)

lemma vlength_unit:
  assumes "vlength v \<noteq> 0"
  shows "vlength (fst v / vlength v, snd v / vlength v) = 1"
proof -
  let ?l = "vlength v"
  have sq: "?l\<^sup>2 = (fst v)\<^sup>2 + (snd v)\<^sup>2"
    by (simp add: vlength_def)
  have "(fst v / ?l)\<^sup>2 + (snd v / ?l)\<^sup>2 = ((fst v)\<^sup>2 + (snd v)\<^sup>2) / ?l\<^sup>2"
    by (simp add: power_divide add_divide_distrib)
  also have "\<dots> = 1"
    using assms by (simp add: sq [symmetric])
  finally show ?thesis
    by (simp add: vlength_def)
qed

lemma vlength_nonneg: "0 \<le> vlength v"
  by (simp add: vlength_def)

lemma sqrt_25: "sqrt 25 = 5"
  using real_sqrt_abs [of 5] by simp

lemma vlength_3_4: "vlength (3, 4) = 5"
  by (simp add: vlength_def sqrt_25)

text \<open>
  C6. \<open>normalize v\<close> returns a vector of Euclidean length 1 for every \<open>v\<close> of nonzero
  length, and \<open>normalize (0, 0)\<close> returns the zero vector; no input makes it raise.
\<close>

theorem normalize_unit_or_zero:
  "(vlength v \<noteq> 0 \<longrightarrow> (\<exists>u. normalize v = Inr u \<and> vlength u = 1))
   \<and> normalize (0, 0) = Inr (0, 0)
   \<and> (\<forall>e. normalize v \<noteq> Inl e)"
proof (intro conjI impI allI)
  assume "vlength v \<noteq> 0"
  then show "\<exists>u. normalize v = Inr u \<and> vlength u = 1"
    using normalize_value [of v] vlength_unit [of v] by blast
next
  show "normalize (0, 0) = Inr (0, 0)"
    by (simp add: normalize_def)
next
  fix e show "normalize v \<noteq> Inl e"
    by (simp add: normalize_value)
qed

text \<open>
  The vector \<open>(3, 4)\<close> has length 5 and is scaled to \<open>(3/5, 4/5)\<close>, of length 1.
\<close>

theorem normalize_unit_or_zero_witness:
  "vlength (3, 4) \<noteq> 0 \<and> normalize (3, 4) = Inr (3 / 5, 4 / 5) \<and> vlength (3 / 5, 4 / 5) = 1
   \<and> (\<exists>u. normalize (3, 4) = Inr u \<and> vlength u = 1)"
proof -
  have s: "sqrt 25 = 5"
    using real_sqrt_abs [of 5] by simp
  have l: "vlength (3, 4) = 5"
    by (simp add: vlength_def s)
  have n: "normalize (3, 4) = Inr (3 / 5, 4 / 5)"
    by (simp add: normalize_value l)
  have u: "vlength (3 / 5, 4 / 5) = 1"
    by (simp add: vlength_def power_divide)
  from l normalize_unit_or_zero [of "(3, 4)"] n u show ?thesis
    by simp
qed

lemma spec_normalize_value:
  "spec_normalize v = (fst v / vlength v, snd v / vlength v)"
  by (simp add: spec_normalize_def vscalmul_def)

lemma normalize_spec: "normalize v = Inr (spec_normalize v)"
  by (simp add: normalize_value spec_normalize_value)

lemma spec_normalize_zero: "spec_normalize (0, 0) = (0, 0)"
  by (simp add: spec_normalize_def vlength_def)

lemma vlength_scale: "vlength (vscalmul u t) = \<bar>t\<bar> * vlength u"
proof -
  have "(t * fst u)\<^sup>2 + (t * snd u)\<^sup>2 = t\<^sup>2 * ((fst u)\<^sup>2 + (snd u)\<^sup>2)"
    by (simp add: power_mult_distrib distrib_left)
  then have "vlength (vscalmul u t) = sqrt (t\<^sup>2 * ((fst u)\<^sup>2 + (snd u)\<^sup>2))"
    by (simp add: vlength_def vscalmul_def)
  also have "\<dots> = \<bar>t\<bar> * vlength u"
    by (simp add: real_sqrt_mult vlength_def)
  finally show ?thesis .
qed

lemma spec_normalize_scale_unit:
  assumes "vlength u = 1" and "t \<noteq> 0"
  shows "spec_normalize (vscalmul u t) = vscalmul u (sgn t)"
proof -
  have l: "vlength (vscalmul u t) = \<bar>t\<bar>"
    by (simp add: vlength_scale assms(1))
  have "spec_normalize (vscalmul u t) = (fst (vscalmul u t) / \<bar>t\<bar>, snd (vscalmul u t) / \<bar>t\<bar>)"
    by (simp only: spec_normalize_value l)
  also have "\<dots> = vscalmul u (sgn t)"
    using assms(2) by (simp add: vscalmul_def real_sgn_eq)
  finally show ?thesis .
qed

lemma vlength_neg_scale:
  assumes "0 < t"
  shows "vlength (vscalmul e (- t)) = t * vlength e"
proof -
  have "(- t * fst e)\<^sup>2 + (- t * snd e)\<^sup>2 = t\<^sup>2 * ((fst e)\<^sup>2 + (snd e)\<^sup>2)"
    by (simp add: power_mult_distrib distrib_left)
  then have "vlength (vscalmul e (- t)) = sqrt (t\<^sup>2 * ((fst e)\<^sup>2 + (snd e)\<^sup>2))"
    by (simp add: vlength_def vscalmul_def)
  also have "\<dots> = \<bar>t\<bar> * vlength e"
    by (simp add: real_sqrt_mult vlength_def)
  finally show ?thesis
    using assms by simp
qed

lemma spec_normalize_neg_scale:
  assumes "0 < t"
  shows "spec_normalize (vscalmul e (- t)) = vscalmul (spec_normalize e) (- 1)"
  using assms
  by (simp add: spec_normalize_value vlength_neg_scale) (simp add: vscalmul_def)

lemma spec_edge_normal_same: "spec_edge_normal p p = (0, 0)"
  by (simp add: spec_edge_normal_def vdiff_def spec_normalize_zero vorthogonal_def)

section \<open>Properties of the kerf offset\<close>

subsection \<open>The loop body in closed form\<close>

text \<open>
  Inside the loop the three indices \<open>i - 1\<close>, \<open>i\<close> and \<open>(i + 1) % lp\<close> are always in
  range, \<open>i - 1\<close> being \<open>-1\<close>, the last point, for \<open>i = 0\<close>. So the only exception the body
  can raise is the ZeroDivisionError of \<open>-k / cos_alpha\<close>, and otherwise it appends the point
  of the specification.
\<close>

lemma py_nth_nat: "i < length xs \<Longrightarrow> py_nth xs (int i) = Inr (xs ! i)"
  by (simp add: py_nth_def)

lemma py_nth_prev:
  assumes "i < length xs"
  shows "py_nth xs (int i - 1) = Inr (xs ! ((i + length xs - 1) mod length xs))"
proof (cases i)
  case 0
  with assms show ?thesis
    by (cases xs) (simp_all add: py_nth_def)
next
  case (Suc j)
  with assms show ?thesis
    by (simp add: py_nth_def)
qed

lemma py_nth_next:
  assumes "i < length xs"
  shows "py_nth xs ((int i + 1) mod int (length xs)) = Inr (xs ! ((i + 1) mod length xs))"
proof -
  have "(int i + 1) mod int (length xs) = int ((i + 1) mod length xs)"
    by (simp add: zmod_int add.commute)
  moreover have "(i + 1) mod length xs < length xs"
    using assms by (intro mod_less_divisor) auto
  ultimately show ?thesis
    by (simp only: py_nth_nat)
qed

lemma kerf_point_spec:
  assumes "i < length points"
  shows "kerf_point points k closed' i =
           (if spec_cos_half_angle points closed' i = 0 then Inl ZeroDivisionError
            else Inr (spec_output points k closed' i))"
proof -
  have last: "(int i = int (length points) - 1) = (i = length points - 1)"
    using assms by auto
  have body: "kerf_point points k closed' i =
      bind_err (py_div (- k) (spec_cos_half_angle points closed' i))
        (\<lambda>q. Inr (vadd (points ! i) (vscalmul (spec_d points closed' i) q)))"
    unfolding kerf_point_def spec_cos_half_angle_def spec_d_def spec_v2_def spec_v1_def
      spec_edge_normal_def Let_def
    by (simp only: py_nth_prev [OF assms] py_nth_nat [OF assms] py_nth_next [OF assms]
        normalize_spec bind_err_simps last of_nat_eq_0_iff)
  show ?thesis
    by (simp add: body py_div_def bind_err_simps spec_output_def)
qed

lemma spec_v1_incoming:
  assumes "closed' \<or> 0 < i"
  shows "spec_v1 points closed' i =
           spec_edge_normal (points ! ((i + length points - 1) mod length points)) (points ! i)"
  using assms by (auto simp: spec_v1_def Let_def)

lemma spec_v2_outgoing:
  assumes "closed' \<or> i + 1 < length points"
  shows "spec_v2 points closed' i =
           spec_edge_normal (points ! i) (points ! ((i + 1) mod length points))"
  using assms by (auto simp: spec_v2_def Let_def)

lemma cos_zero_of_v1_zero:
  "spec_v1 points closed' i = (0, 0) \<Longrightarrow> spec_cos_half_angle points closed' i = 0"
  by (simp add: spec_cos_half_angle_def dotproduct_def)

subsection \<open>The loop\<close>

lemma kerf_loop_ok:
  "(\<forall>i \<in> set is. kerf_point points k closed' i = Inr (f i)) \<Longrightarrow>
   kerf_loop points k closed' is acc = Inr (acc @ map f is)"
  by (induction "is" arbitrary: acc) (simp_all add: bind_err_simps)

lemma kerf_loop_raises:
  assumes "i \<in> set is"
    and "kerf_point points k closed' i = Inl e"
    and "\<And>j e'. j \<in> set is \<Longrightarrow> kerf_point points k closed' j = Inl e' \<Longrightarrow> e' = e"
  shows "kerf_loop points k closed' is acc = Inl e"
  using assms
proof (induction "is" arbitrary: acc)
  case Nil
  then show ?case by simp
next
  case (Cons j rest)
  show ?case
  proof (cases "kerf_point points k closed' j")
    case (Inl e')
    have "e' = e"
      using Cons.prems(3) [of j e'] Inl by simp
    then show ?thesis
      using Inl by (simp add: bind_err_simps)
  next
    case (Inr p)
    have "i \<noteq> j"
      using Inr Cons.prems(2) by auto
    then have "i \<in> set rest"
      using Cons.prems(1) by simp
    then have "kerf_loop points k closed' rest (acc @ [p]) = Inl e"
      using Cons.prems(2,3) by (intro Cons.IH) auto
    then show ?thesis
      using Inr by (simp add: bind_err_simps)
  qed
qed

lemma kerf_all_ok:
  assumes "\<forall>i < length points. spec_cos_half_angle points closed' i \<noteq> 0"
  shows "kerf points k closed' = Inr (map (spec_output points k closed') [0..<length points])"
proof -
  have "\<forall>i \<in> set [0..<length points].
          kerf_point points k closed' i = Inr (spec_output points k closed' i)"
    using assms by (simp add: kerf_point_spec)
  from kerf_loop_ok [OF this, of "[]"] show ?thesis
    by (simp add: kerf_def)
qed

lemma kerf_raises:
  assumes "i < length points" and "spec_cos_half_angle points closed' i = 0"
  shows "kerf points k closed' = Inl ZeroDivisionError"
proof -
  have mem: "i \<in> set [0..<length points]"
    using assms(1) by simp
  have at: "kerf_point points k closed' i = Inl ZeroDivisionError"
    using assms by (simp add: kerf_point_spec)
  have only: "e' = ZeroDivisionError"
    if "j \<in> set [0..<length points]" and "kerf_point points k closed' j = Inl e'" for j e'
  proof -
    from that(1) have "j < length points" by simp
    from that(2) show ?thesis
      unfolding kerf_point_spec [OF \<open>j < length points\<close>]
      by (simp split: if_splits)
  qed
  from kerf_loop_raises [OF mem at only] show ?thesis
    by (simp add: kerf_def)
qed

subsection \<open>The scenarios evaluated\<close>

lemmas vec_defs = spec_cos_half_angle_def spec_d_def spec_v1_def spec_v2_def spec_edge_normal_def
  spec_normalize_def vlength_def vdiff_def vadd_def vorthogonal_def vscalmul_def dotproduct_def

lemma upt_2: "[0..<2] = [0, 1]"
  by (simp add: upt_rec)

lemma upt_3: "[0..<3] = [0, 1, 2]"
  by (simp add: upt_rec)

lemma upt_4: "[0..<4] = [0, 1, 2, 3]"
  by (simp add: upt_rec)

lemma square_cos: "i < 4 \<Longrightarrow> spec_cos_half_angle unit_square True i = 1 / sqrt 2"
proof -
  assume "i < 4"
  then consider "i = 0" | "i = 1" | "i = 2" | "i = 3" by linarith
  then show ?thesis
    by cases (simp_all add: unit_square_def vec_defs)
qed

lemma square_output:
  "map (spec_output unit_square k True) [0, 1, 2, 3] =
     [(- k, - k), (1 + k, - k), (1 + k, 1 + k), (- k, 1 + k)]"
  by (simp add: unit_square_def spec_output_def vec_defs)

lemma kerf_square:
  "kerf unit_square k True = Inr [(- k, - k), (1 + k, - k), (1 + k, 1 + k), (- k, 1 + k)]"
proof -
  have len: "length unit_square = 4"
    by (simp add: unit_square_def)
  have "\<forall>i < length unit_square. spec_cos_half_angle unit_square True i \<noteq> 0"
    unfolding len by (simp add: square_cos)
  from kerf_all_ok [OF this, of k] show ?thesis
    using square_output [of k] by (simp add: len upt_4)
qed

lemma square_nondegenerate: "edges_nondegenerate unit_square True"
proof -
  have "unit_square ! i \<noteq> unit_square ! ((i + 1) mod 4)" if "i < 4" for i
  proof -
    from that consider "i = 0" | "i = 1" | "i = 2" | "i = 3" by linarith
    then show ?thesis
      by cases (simp_all add: unit_square_def)
  qed
  then show ?thesis
    by (simp add: edges_nondegenerate_def) (simp add: unit_square_def)
qed

lemma two_point_cos: "i < 2 \<Longrightarrow> spec_cos_half_angle two_point_path False i = 1"
proof -
  assume "i < 2"
  then consider "i = 0" | "i = 1" by linarith
  then show ?thesis
    by cases (simp_all add: two_point_path_def vec_defs)
qed

lemma two_point_output:
  "map (spec_output two_point_path k False) [0, 1] = [(0, - k), (1, - k)]"
  by (simp add: two_point_path_def spec_output_def vec_defs)

lemma two_point_normals:
  "spec_v1 two_point_path False 0 = (0, 1)" "spec_v2 two_point_path False 0 = (0, 1)"
  "spec_v1 two_point_path False 1 = (0, 1)" "spec_v2 two_point_path False 1 = (0, 1)"
  "spec_edge_normal (0, 0) (1, 0) = (0, 1)"
  by (simp_all add: two_point_path_def vec_defs)

subsection \<open>Each point is displaced along the bisector\<close>

text \<open>
  C1. For a path of \<open>n \<ge> 1\<close> points whose edges are non-degenerate and whose bisector
  cosine is nonzero at every vertex, \<open>kerf\<close> returns a list of exactly \<open>n\<close> points, and
  its point \<open>i\<close> is \<open>points[i] + d * (-k / cosHalfAngle)\<close>, where \<open>v1\<close> and \<open>v2\<close> are the unit
  orthogonals of the incoming and the outgoing edge (indices modulo \<open>n\<close>; at the two ends
  of an open path the one existing edge gives both), \<open>d = normalize(v1 + v2)\<close> and
  \<open>cosHalfAngle = dot(v1, d)\<close>.
\<close>

theorem kerf_displaces_each_point:
  assumes "1 \<le> length points"
    and "edges_nondegenerate points closed'"
    and "\<forall>i < length points. spec_cos_half_angle points closed' i \<noteq> 0"
  shows "\<exists>out. kerf points k closed' = Inr out
           \<and> length out = length points
           \<and> (\<forall>i < length points.
                out ! i = vadd (points ! i)
                  (vscalmul (spec_d points closed' i)
                     (- k / spec_cos_half_angle points closed' i)))"
proof -
  let ?out = "map (spec_output points k closed') [0..<length points]"
  have "kerf points k closed' = Inr ?out"
    using assms(3) by (rule kerf_all_ok)
  moreover have "length ?out = length points"
    by simp
  moreover have "\<forall>i < length points. ?out ! i = vadd (points ! i)
                  (vscalmul (spec_d points closed' i)
                     (- k / spec_cos_half_angle points closed' i))"
    by (simp add: spec_output_def)
  ultimately show ?thesis
    by blast
qed

text \<open>
  The closed unit square with \<open>k = 1\<close>: its four edges are non-degenerate
  (\<open>square_nondegenerate\<close>), the cosine is nonzero at its four corners, and every corner moves
  out by one unit on both axes.
\<close>

theorem kerf_displaces_each_point_witness:
  "1 \<le> length unit_square
   \<and> spec_cos_half_angle unit_square True 0 \<noteq> 0
   \<and> spec_cos_half_angle unit_square True 1 \<noteq> 0
   \<and> spec_cos_half_angle unit_square True 2 \<noteq> 0
   \<and> spec_cos_half_angle unit_square True 3 \<noteq> 0
   \<and> (\<exists>out. kerf unit_square 1 True = Inr out \<and> length out = 4
         \<and> out ! 0 = (- 1, - 1) \<and> out ! 1 = (2, - 1) \<and> out ! 2 = (2, 2) \<and> out ! 3 = (- 1, 2))"
proof -
  have len: "length unit_square = 4"
    by (simp add: unit_square_def)
  have h1: "1 \<le> length unit_square"
    by (simp add: len)
  have h3: "\<forall>i < length unit_square. spec_cos_half_angle unit_square True i \<noteq> 0"
    unfolding len by (simp add: square_cos)
  from kerf_displaces_each_point [OF h1 square_nondegenerate h3, of 1]
  obtain out where out: "kerf unit_square 1 True = Inr out" "length out = length unit_square"
    and at: "\<forall>i < length unit_square. out ! i = vadd (unit_square ! i)
                  (vscalmul (spec_d unit_square True i)
                     (- 1 / spec_cos_half_angle unit_square True i))"
    by blast
  have pts: "map (spec_output unit_square 1 True) [0, 1, 2, 3] = [(- 1, - 1), (2, - 1), (2, 2), (- 1, 2)]"
    using square_output [of 1] by simp
  have "out ! 0 = (- 1, - 1)" "out ! 1 = (2, - 1)" "out ! 2 = (2, 2)" "out ! 3 = (- 1, 2)"
    using at pts by (simp_all add: len spec_output_def)
  with out h1 show ?thesis
    by (simp add: len square_cos)
qed

text \<open>
  C3. The closed unit square offset by \<open>k = 0.1\<close>: corner \<open>(0, 0)\<close> goes to
  \<open>(-0.1, -0.1)\<close>, and each of the four corners is displaced by \<open>k / cos(45 degrees)\<close>, which
  is \<open>k * sqrt 2\<close>, times the unit vector of the diagonal that points away from the square.
\<close>

theorem kerf_unit_square:
  "kerf unit_square (1 / 10) True =
     Inr [(- 1 / 10, - 1 / 10), (11 / 10, - 1 / 10), (11 / 10, 11 / 10), (- 1 / 10, 11 / 10)]
   \<and> vdiff (0, 0) (- 1 / 10, - 1 / 10) = vscalmul (- 1 / sqrt 2, - 1 / sqrt 2) (1 / 10 / cos (pi / 4))
   \<and> vdiff (1, 0) (11 / 10, - 1 / 10) = vscalmul (1 / sqrt 2, - 1 / sqrt 2) (1 / 10 / cos (pi / 4))
   \<and> vdiff (1, 1) (11 / 10, 11 / 10) = vscalmul (1 / sqrt 2, 1 / sqrt 2) (1 / 10 / cos (pi / 4))
   \<and> vdiff (0, 1) (- 1 / 10, 11 / 10) = vscalmul (- 1 / sqrt 2, 1 / sqrt 2) (1 / 10 / cos (pi / 4))
   \<and> 1 / 10 / cos (pi / 4) = 1 / 10 * sqrt 2"
proof -
  have c: "1 / 10 / cos (pi / 4) = 1 / 10 * sqrt 2"
    by (simp add: cos_45 field_simps)
  have k: "kerf unit_square (1 / 10) True =
     Inr [(- 1 / 10, - 1 / 10), (11 / 10, - 1 / 10), (11 / 10, 11 / 10), (- 1 / 10, 11 / 10)]"
    using kerf_square [of "1 / 10"] by simp
  show ?thesis
    unfolding c by (simp add: k vdiff_def vscalmul_def)
qed

text \<open>
  C4. The open path \<open>[(0, 0), (1, 0)]\<close>: at both ends \<open>v1\<close> and \<open>v2\<close> are the orthogonal
  \<open>(0, 1)\<close> of the single edge, the cosine is 1, and the output is \<open>[(0, -k), (1, -k)]\<close>
  for every \<open>k\<close>.
\<close>

theorem kerf_open_two_points:
  "kerf two_point_path k False = Inr [(0, - k), (1, - k)]
   \<and> spec_v1 two_point_path False 0 = spec_edge_normal (0, 0) (1, 0)
   \<and> spec_v2 two_point_path False 0 = spec_edge_normal (0, 0) (1, 0)
   \<and> spec_v1 two_point_path False 1 = spec_edge_normal (0, 0) (1, 0)
   \<and> spec_v2 two_point_path False 1 = spec_edge_normal (0, 0) (1, 0)
   \<and> spec_edge_normal (0, 0) (1, 0) = (0, 1)
   \<and> spec_cos_half_angle two_point_path False 0 = 1
   \<and> spec_cos_half_angle two_point_path False 1 = 1"
proof -
  have len: "length two_point_path = 2"
    by (simp add: two_point_path_def)
  have "\<forall>i < length two_point_path. spec_cos_half_angle two_point_path False i \<noteq> 0"
    unfolding len by (simp add: two_point_cos)
  from kerf_all_ok [OF this, of k]
  have "kerf two_point_path k False = Inr [(0, - k), (1, - k)]"
    using two_point_output [of k] by (simp add: len upt_2)
  then show ?thesis
    using two_point_normals two_point_cos [of 0] two_point_cos [of 1] by simp
qed

subsection \<open>Degenerate vertices\<close>

text \<open>
  C10. A closed path in which two cyclically consecutive points are equal (so also every
  closed path of a single point), and an open path in which a point equals its predecessor
  (so also every open path with a duplicated interior vertex), make \<open>kerf\<close> raise
  ZeroDivisionError, for every \<open>k\<close>: the zero-length edge has the zero vector as its
  normal \<open>v1\<close>, and \<open>cos_alpha = dot(v1, d)\<close> is 0.
\<close>

theorem kerf_duplicate_vertex_raises:
  assumes "(closed' \<and> (\<exists>i < length points. points ! i = points ! ((i + 1) mod length points)))
         \<or> (\<not> closed' \<and> (\<exists>i. 0 < i \<and> i < length points \<and> points ! (i - 1) = points ! i))"
  shows "kerf points k closed' = Inl ZeroDivisionError"
  using assms
proof (elim disjE conjE exE)
  fix i
  assume c: "closed'" and i: "i < length points"
    and eq: "points ! i = points ! ((i + 1) mod length points)"
  let ?n = "length points"
  let ?j = "(i + 1) mod ?n"
  have j: "?j < ?n"
    using i by (intro mod_less_divisor) auto
  have wrap: "(?j + ?n - 1) mod ?n = i"
  proof (cases "i + 1 = ?n")
    case True
    then show ?thesis using i by simp
  next
    case False
    with i have "i + 1 < ?n" by simp
    then show ?thesis using i by simp
  qed
  have "spec_v1 points closed' ?j =
          spec_edge_normal (points ! ((?j + ?n - 1) mod ?n)) (points ! ?j)"
    using c by (intro spec_v1_incoming) simp
  also have "\<dots> = spec_edge_normal (points ! i) (points ! ?j)"
    by (simp only: wrap)
  also have "\<dots> = (0, 0)"
    by (simp only: eq spec_edge_normal_same)
  finally show ?thesis
    by (intro kerf_raises [OF j] cos_zero_of_v1_zero)
next
  fix i
  assume o: "\<not> closed'" and i: "0 < i" "i < length points"
    and eq: "points ! (i - 1) = points ! i"
  have prev: "(i + length points - 1) mod length points = i - 1"
    using i by (simp add: mod_if)
  have "spec_v1 points closed' i =
          spec_edge_normal (points ! ((i + length points - 1) mod length points)) (points ! i)"
    using i(1) by (intro spec_v1_incoming) simp
  also have "\<dots> = spec_edge_normal (points ! (i - 1)) (points ! i)"
    by (simp only: prev)
  also have "\<dots> = (0, 0)"
    by (simp only: eq spec_edge_normal_same)
  finally show ?thesis
    by (intro kerf_raises [OF i(2)] cos_zero_of_v1_zero)
qed

text \<open>
  A closed path of one point with \<open>k = 0\<close>, and an open path whose point 2 repeats point 1.
\<close>

theorem kerf_duplicate_vertex_raises_witness:
  "kerf [(5, 7)] 0 True = Inl ZeroDivisionError
   \<and> kerf [(0, 0), (1, 0), (1, 0), (2, 0)] 1 False = Inl ZeroDivisionError"
proof -
  have "kerf [(5, 7)] 0 True = Inl ZeroDivisionError"
    by (rule kerf_duplicate_vertex_raises) simp
  moreover have "kerf [(0, 0), (1, 0), (1, 0), (2, 0)] 1 False = Inl ZeroDivisionError"
  proof (rule kerf_duplicate_vertex_raises, intro disjI2 conjI exI)
    show "(0::nat) < 2" by simp
    show "2 < length [(0::real, 0::real), (1, 0), (1, 0), (2, 0)]" by simp
    show "[(0::real, 0::real), (1, 0), (1, 0), (2, 0)] ! (2 - 1) = [(0, 0), (1, 0), (1, 0), (2, 0)] ! 2"
      by simp
  qed simp
  ultimately show ?thesis
    by simp
qed

text \<open>
  C2, as the code has it. At a vertex where the path turns back to the point it came from
  (\<open>points[i+1] = points[i-1]\<close>, indices modulo \<open>n\<close>; a vertex of a closed path or an interior
  vertex of an open one) the outgoing edge vector is the negation of the incoming one. The
  two unit normals cancel, \<open>normalize\<close> returns the zero vector for \<open>d\<close>, \<open>cos_alpha\<close> is 0
  and the division \<open>-k / cos_alpha\<close> raises ZeroDivisionError, for every \<open>k\<close>: \<open>kerf\<close> ends,
  but returns no value. The two edge vectors are negations of each other in floating point
  as well, so the cancellation does not depend on the arithmetic being exact.
\<close>

theorem kerf_return_vertex_raises:
  assumes "i < length points"
    and "closed' \<or> (0 < i \<and> i + 1 < length points)"
    and "points ! ((i + 1) mod length points) = points ! ((i + length points - 1) mod length points)"
  shows "kerf points k closed' = Inl ZeroDivisionError"
proof -
  let ?e = "vdiff (points ! ((i + length points - 1) mod length points)) (points ! i)"
  have v1: "spec_v1 points closed' i = vorthogonal (spec_normalize ?e)"
    using assms(2) by (auto simp: spec_v1_incoming spec_edge_normal_def)
  have "vdiff (points ! i) (points ! ((i + length points - 1) mod length points)) =
          vscalmul ?e (- 1)"
    by (simp add: vdiff_def vscalmul_def)
  then have neg: "vdiff (points ! i) (points ! ((i + 1) mod length points)) = vscalmul ?e (- 1)"
    by (simp only: assms(3))
  have "spec_v2 points closed' i =
          spec_edge_normal (points ! i) (points ! ((i + 1) mod length points))"
    using assms(2) by (intro spec_v2_outgoing) auto
  also have "\<dots> = vorthogonal (spec_normalize (vscalmul ?e (- 1)))"
    by (simp only: spec_edge_normal_def neg)
  also have "\<dots> = vorthogonal (vscalmul (spec_normalize ?e) (- 1))"
    by (simp only: spec_normalize_neg_scale [OF zero_less_one])
  finally have v2: "spec_v2 points closed' i = vorthogonal (vscalmul (spec_normalize ?e) (- 1))" .
  have "vadd (spec_v1 points closed' i) (spec_v2 points closed' i) = (0, 0)"
    unfolding v1 v2 by (simp add: vadd_def vorthogonal_def vscalmul_def)
  then have "spec_d points closed' i = (0, 0)"
    by (simp add: spec_d_def spec_normalize_zero)
  then have "spec_cos_half_angle points closed' i = 0"
    by (simp add: spec_cos_half_angle_def dotproduct_def)
  with assms(1) show ?thesis
    by (rule kerf_raises)
qed

text \<open>
  The open path \<open>[(0, 0), (3, 4), (0, 0)]\<close> turns back at its middle point.
\<close>

theorem kerf_return_vertex_raises_witness:
  "kerf [(0, 0), (3, 4), (0, 0)] 1 False = Inl ZeroDivisionError"
proof (rule kerf_return_vertex_raises [where i = 1])
  show "1 < length [(0::real, 0::real), (3, 4), (0, 0)]"
    by simp
  show "False \<or> (0::nat) < 1 \<and> 1 + 1 < length [(0::real, 0::real), (3, 4), (0, 0)]"
    by simp
  show "[(0::real, 0::real), (3, 4), (0, 0)] ! ((1 + 1) mod length [(0::real, 0::real), (3, 4), (0, 0)]) =
        [(0, 0), (3, 4), (0, 0)] ! ((1 + length [(0::real, 0::real), (3, 4), (0, 0)] - 1)
                                     mod length [(0::real, 0::real), (3, 4), (0, 0)])"
    by simp
qed

text \<open>
  C2 as stated fails on its own example \<open>[(0, 0), (1, 0), (0, 0)]\<close>: no value is
  returned, whether the path is closed (the closing edge from point 2 to point 0 has
  length zero) or open (the turn at point 1).
\<close>

theorem kerf_turn_back_raises:
  "kerf turn_back_path (1 / 10) True = Inl ZeroDivisionError
   \<and> kerf turn_back_path (1 / 10) False = Inl ZeroDivisionError"
proof
  have "spec_cos_half_angle turn_back_path True 0 = 0"
    by (simp add: turn_back_path_def vec_defs)
  then show "kerf turn_back_path (1 / 10) True = Inl ZeroDivisionError"
    by (intro kerf_raises [where i = 0]) (simp_all add: turn_back_path_def)
next
  have "spec_cos_half_angle turn_back_path False 1 = 0"
    by (simp add: turn_back_path_def vec_defs)
  then show "kerf turn_back_path (1 / 10) False = Inl ZeroDivisionError"
    by (intro kerf_raises [where i = 1]) (simp_all add: turn_back_path_def)
qed

subsection \<open>Regular polygons\<close>

text \<open>
  A chord of the circle between the angles \<open>t - h\<close> and \<open>t + h\<close> has the direction
  \<open>(- sin t, cos t)\<close>, so the unit orthogonal of an edge of the polygon is the radial unit
  vector at the middle angle, up to the sign of the orientation.
\<close>

lemma vlength_circlepoint_1: "vlength (circlepoint 1 t) = 1"
  by (simp add: vlength_def circlepoint_def)

lemma vlength_tangent_unit: "vlength (- sin t, cos t) = 1"
  by (simp add: vlength_def)

lemma chord:
  "vdiff (vadd c (circlepoint R (t - h))) (vadd c (circlepoint R (t + h))) =
     vscalmul (- sin t, cos t) (2 * R * sin h)"
  by (simp add: vdiff_def vadd_def circlepoint_def vscalmul_def cos_add cos_diff sin_add sin_diff
      algebra_simps)

lemma chord_normal:
  assumes "0 < R" and "sin h \<noteq> 0"
  shows "spec_edge_normal (vadd c (circlepoint R (t - h))) (vadd c (circlepoint R (t + h))) =
           vscalmul (circlepoint 1 t) (- sgn (sin h))"
proof -
  have nz: "2 * R * sin h \<noteq> 0"
    using assms by simp
  have sg: "sgn (2 * R * sin h) = sgn (sin h)"
    using assms(1) by (simp add: sgn_mult)
  show ?thesis
    unfolding spec_edge_normal_def chord
      spec_normalize_scale_unit [OF vlength_tangent_unit nz] sg
    by (simp add: vorthogonal_def vscalmul_def circlepoint_def)
qed

lemma chord_normal_in:
  assumes "0 < R" and "sin h \<noteq> 0"
  shows "spec_edge_normal (vadd c (circlepoint R (t - (h + h)))) (vadd c (circlepoint R t)) =
           vscalmul (circlepoint 1 (t - h)) (- sgn (sin h))"
  using chord_normal [OF assms, of c "t - h"] by simp

lemma chord_normal_out:
  assumes "0 < R" and "sin h \<noteq> 0"
  shows "spec_edge_normal (vadd c (circlepoint R t)) (vadd c (circlepoint R (t + (h + h)))) =
           vscalmul (circlepoint 1 (t + h)) (- sgn (sin h))"
  using chord_normal [OF assms, of c "t + h"] by (simp add: add.assoc)

lemma turn_sign_cases: "turn_sign ccw = 1 \<or> turn_sign ccw = - 1"
  by (simp add: turn_sign_def)

lemma turn_sign_sq: "turn_sign ccw * turn_sign ccw = 1"
  by (simp add: turn_sign_def)

lemma circlepoint_turn: "circlepoint R (t + turn_sign ccw * (2 * pi)) = circlepoint R t"
  by (simp add: circlepoint_def turn_sign_def cos_diff sin_diff)

lemma length_regular_polygon: "length (regular_polygon c R a n ccw) = n"
  by (simp add: regular_polygon_def)

lemma regular_polygon_nth:
  "i < n \<Longrightarrow> regular_polygon c R a n ccw ! i = vadd c (circlepoint R (polygon_angle a n ccw i))"
  by (simp add: regular_polygon_def)

lemma polygon_angle_full_turn:
  assumes "0 < n"
  shows "polygon_angle a n ccw n = a + turn_sign ccw * (2 * pi)"
  using assms by (simp add: polygon_angle_def)

lemma polygon_angle_Suc:
  "polygon_angle a n ccw (Suc i) = polygon_angle a n ccw i + turn_sign ccw * (2 * pi / real n)"
  by (simp add: polygon_angle_def algebra_simps add_divide_distrib)

lemma regular_polygon_next:
  assumes "i < n"
  shows "regular_polygon c R a n ccw ! ((i + 1) mod n) =
           vadd c (circlepoint R (polygon_angle a n ccw i + turn_sign ccw * (2 * pi / real n)))"
proof (cases "Suc i = n")
  case True
  have "polygon_angle a n ccw i + turn_sign ccw * (2 * pi / real n) = polygon_angle a n ccw n"
    using True polygon_angle_Suc [of a n ccw i] by simp
  also have "\<dots> = polygon_angle a n ccw 0 + turn_sign ccw * (2 * pi)"
    using assms by (simp add: polygon_angle_full_turn) (simp add: polygon_angle_def)
  finally have "circlepoint R (polygon_angle a n ccw i + turn_sign ccw * (2 * pi / real n)) =
                circlepoint R (polygon_angle a n ccw 0)"
    by (simp only: circlepoint_turn)
  moreover have "regular_polygon c R a n ccw ! ((i + 1) mod n) =
                 vadd c (circlepoint R (polygon_angle a n ccw 0))"
    using True assms by (simp add: regular_polygon_nth)
  ultimately show ?thesis
    by simp
next
  case False
  with assms have "Suc i < n" by simp
  then show ?thesis
    by (simp add: regular_polygon_nth polygon_angle_Suc)
qed

lemma regular_polygon_prev:
  assumes "i < n"
  shows "regular_polygon c R a n ccw ! ((i + n - 1) mod n) =
           vadd c (circlepoint R (polygon_angle a n ccw i - turn_sign ccw * (2 * pi / real n)))"
proof (cases i)
  case 0
  from assms obtain m where n: "n = Suc m"
    by (cases n) auto
  have "polygon_angle a n ccw m = polygon_angle a n ccw n - turn_sign ccw * (2 * pi / real n)"
    using polygon_angle_Suc [of a n ccw m] n by simp
  also have "\<dots> = (polygon_angle a n ccw i - turn_sign ccw * (2 * pi / real n))
                     + turn_sign ccw * (2 * pi)"
    using assms 0 by (simp add: polygon_angle_full_turn) (simp add: polygon_angle_def)
  finally have "circlepoint R (polygon_angle a n ccw m) =
                circlepoint R (polygon_angle a n ccw i - turn_sign ccw * (2 * pi / real n))"
    by (simp only: circlepoint_turn)
  moreover have "regular_polygon c R a n ccw ! ((i + n - 1) mod n) =
                 vadd c (circlepoint R (polygon_angle a n ccw m))"
    using 0 n by (simp add: regular_polygon_nth)
  ultimately show ?thesis
    by simp
next
  case (Suc j)
  with assms have "(i + n - 1) mod n = j" by simp
  moreover have "j < n" using Suc assms by simp
  ultimately show ?thesis
    using Suc by (simp add: regular_polygon_nth polygon_angle_Suc)
qed

lemma half_step_bounds:
  assumes "3 \<le> n"
  shows "0 < pi / real n" and "pi / real n < pi / 2"
proof -
  from assms have n: "2 < real n" by simp
  then show "0 < pi / real n" by simp
  from n have "pi / real n < pi / 2"
    by (intro divide_strict_left_mono) simp_all
  then show "pi / real n < pi / 2" .
qed

lemma cos_half_step_pos: "3 \<le> n \<Longrightarrow> 0 < cos (pi / real n)"
  by (rule cos_gt_zero) (rule half_step_bounds, assumption)+

lemma sin_half_step_pos: "3 \<le> n \<Longrightarrow> 0 < sin (pi / real n)"
  by (rule sin_gt_zero2) (rule half_step_bounds, assumption)+

lemma sin_turn_half_step:
  assumes "3 \<le> n"
  shows "sin (turn_sign ccw * (pi / real n)) \<noteq> 0"
    and "sgn (sin (turn_sign ccw * (pi / real n))) = turn_sign ccw"
  using sin_half_step_pos [OF assms] by (simp_all add: turn_sign_def)

lemma cos_turn_half_step: "cos (turn_sign ccw * (pi / real n)) = cos (pi / real n)"
  by (simp add: turn_sign_def)

lemma polygon_v1:
  assumes "3 \<le> n" and "0 < R" and "i < n"
  shows "spec_v1 (regular_polygon c R a n ccw) True i =
           vscalmul (circlepoint 1 (polygon_angle a n ccw i - turn_sign ccw * (pi / real n)))
             (- turn_sign ccw)"
proof -
  let ?h = "turn_sign ccw * (pi / real n)"
  let ?t = "polygon_angle a n ccw i - ?h"
  have two: "turn_sign ccw * (2 * pi / real n) = ?h + ?h"
    by simp
  have "spec_v1 (regular_polygon c R a n ccw) True i =
          spec_edge_normal (regular_polygon c R a n ccw ! ((i + n - 1) mod n))
            (regular_polygon c R a n ccw ! i)"
    using spec_v1_incoming [of True i "regular_polygon c R a n ccw"]
    by (simp add: length_regular_polygon)
  also have "\<dots> = spec_edge_normal
                      (vadd c (circlepoint R (polygon_angle a n ccw i - (?h + ?h))))
                      (vadd c (circlepoint R (polygon_angle a n ccw i)))"
    by (simp only: regular_polygon_prev [OF assms(3)] regular_polygon_nth [OF assms(3)] two)
  also have "\<dots> = vscalmul (circlepoint 1 ?t) (- sgn (sin ?h))"
    using assms(2) sin_turn_half_step(1) [OF assms(1)] by (rule chord_normal_in)
  finally show ?thesis
    by (simp only: sin_turn_half_step(2) [OF assms(1)])
qed

lemma polygon_v2:
  assumes "3 \<le> n" and "0 < R" and "i < n"
  shows "spec_v2 (regular_polygon c R a n ccw) True i =
           vscalmul (circlepoint 1 (polygon_angle a n ccw i + turn_sign ccw * (pi / real n)))
             (- turn_sign ccw)"
proof -
  let ?h = "turn_sign ccw * (pi / real n)"
  let ?t = "polygon_angle a n ccw i + ?h"
  have two: "turn_sign ccw * (2 * pi / real n) = ?h + ?h"
    by simp
  have "spec_v2 (regular_polygon c R a n ccw) True i =
          spec_edge_normal (regular_polygon c R a n ccw ! i)
            (regular_polygon c R a n ccw ! ((i + 1) mod n))"
    using spec_v2_outgoing [of True i "regular_polygon c R a n ccw"]
    by (simp add: length_regular_polygon)
  also have "\<dots> = spec_edge_normal
                      (vadd c (circlepoint R (polygon_angle a n ccw i)))
                      (vadd c (circlepoint R (polygon_angle a n ccw i + (?h + ?h))))"
    by (simp only: regular_polygon_next [OF assms(3)] regular_polygon_nth [OF assms(3)] two)
  also have "\<dots> = vscalmul (circlepoint 1 ?t) (- sgn (sin ?h))"
    using assms(2) sin_turn_half_step(1) [OF assms(1)] by (rule chord_normal_out)
  finally show ?thesis
    by (simp only: sin_turn_half_step(2) [OF assms(1)])
qed

lemma unit_sum:
  "vadd (vscalmul (circlepoint 1 (t - h)) s) (vscalmul (circlepoint 1 (t + h)) s) =
     vscalmul (circlepoint 1 t) (s * (2 * cos h))"
  by (simp add: vadd_def vscalmul_def circlepoint_def cos_add cos_diff sin_add sin_diff algebra_simps)

lemma unit_dot: "dotproduct (circlepoint 1 (t - h)) (circlepoint 1 t) = cos h"
proof -
  have "cos h = cos (t - (t - h))"
    by simp
  also have "\<dots> = cos t * cos (t - h) + sin t * sin (t - h)"
    by (rule cos_diff)
  finally show ?thesis
    by (simp add: dotproduct_def circlepoint_def mult.commute)
qed

lemma polygon_d:
  assumes "3 \<le> n" and "0 < R" and "i < n"
  shows "spec_d (regular_polygon c R a n ccw) True i =
           vscalmul (circlepoint 1 (polygon_angle a n ccw i)) (- turn_sign ccw)"
proof -
  let ?h = "turn_sign ccw * (pi / real n)"
  have pos: "0 < cos ?h"
    using cos_half_step_pos [OF assms(1)] by (simp only: cos_turn_half_step)
  then have nz: "- turn_sign ccw * (2 * cos ?h) \<noteq> 0"
    by (simp add: turn_sign_def)
  have sg: "sgn (- turn_sign ccw * (2 * cos ?h)) = - turn_sign ccw"
    using pos by (simp add: turn_sign_def sgn_mult)
  have "spec_d (regular_polygon c R a n ccw) True i =
          spec_normalize (vscalmul (circlepoint 1 (polygon_angle a n ccw i))
            (- turn_sign ccw * (2 * cos ?h)))"
    by (simp only: spec_d_def polygon_v1 [OF assms] polygon_v2 [OF assms] unit_sum)
  also have "\<dots> = vscalmul (circlepoint 1 (polygon_angle a n ccw i)) (- turn_sign ccw)"
    by (simp only: spec_normalize_scale_unit [OF vlength_circlepoint_1 nz] sg)
  finally show ?thesis .
qed

lemma polygon_cos:
  assumes "3 \<le> n" and "0 < R" and "i < n"
  shows "spec_cos_half_angle (regular_polygon c R a n ccw) True i = cos (pi / real n)"
proof -
  let ?h = "turn_sign ccw * (pi / real n)"
  let ?t = "polygon_angle a n ccw i"
  have "spec_cos_half_angle (regular_polygon c R a n ccw) True i =
          dotproduct (vscalmul (circlepoint 1 (?t - ?h)) (- turn_sign ccw))
            (vscalmul (circlepoint 1 ?t) (- turn_sign ccw))"
    by (simp only: spec_cos_half_angle_def polygon_v1 [OF assms] polygon_d [OF assms])
  also have "\<dots> = (turn_sign ccw * turn_sign ccw) * dotproduct (circlepoint 1 (?t - ?h)) (circlepoint 1 ?t)"
    by (simp add: dotproduct_def vscalmul_def algebra_simps)
  also have "\<dots> = cos ?h"
    by (simp only: turn_sign_sq unit_dot mult_1)
  finally show ?thesis
    by (simp only: cos_turn_half_step)
qed

lemma polygon_output:
  assumes "3 \<le> n" and "0 < R" and "i < n"
  shows "spec_output (regular_polygon c R a n ccw) k True i =
           regular_polygon c (R + turn_sign ccw * k / cos (pi / real n)) a n ccw ! i"
proof -
  have "spec_output (regular_polygon c R a n ccw) k True i =
          vadd (vadd c (circlepoint R (polygon_angle a n ccw i)))
            (vscalmul (vscalmul (circlepoint 1 (polygon_angle a n ccw i)) (- turn_sign ccw))
               (- k / cos (pi / real n)))"
    using assms(3)
    by (simp only: spec_output_def polygon_d [OF assms] polygon_cos [OF assms] regular_polygon_nth)
  also have "\<dots> = vadd c (circlepoint (R + turn_sign ccw * k / cos (pi / real n)) (polygon_angle a n ccw i))"
    by (simp add: vadd_def vscalmul_def circlepoint_def algebra_simps)
  finally show ?thesis
    using assms(3) by (simp only: regular_polygon_nth)
qed

text \<open>
  The offset of a regular polygon is the regular polygon with the same centre, angles and
  orientation, its radius changed by \<open>k / cos (pi / n)\<close>: outwards for a counter-clockwise
  polygon and positive \<open>k\<close>.
\<close>

lemma kerf_regular_polygon:
  assumes "3 \<le> n" and "0 < R"
  shows "kerf (regular_polygon c R a n ccw) k True =
           Inr (regular_polygon c (R + turn_sign ccw * k / cos (pi / real n)) a n ccw)"
proof -
  let ?P = "regular_polygon c R a n ccw"
  let ?Q = "regular_polygon c (R + turn_sign ccw * k / cos (pi / real n)) a n ccw"
  have "\<forall>i < length ?P. spec_cos_half_angle ?P True i \<noteq> 0"
    using cos_half_step_pos [OF assms(1)]
    by (simp add: length_regular_polygon polygon_cos [OF assms])
  then have "kerf ?P k True = Inr (map (spec_output ?P k True) [0..<length ?P])"
    by (rule kerf_all_ok)
  moreover have "map (spec_output ?P k True) [0..<length ?P] = ?Q"
    by (intro nth_equalityI)
      (simp_all add: length_regular_polygon polygon_output [OF assms])
  ultimately show ?thesis
    by simp
qed

text \<open>
  C5. Round trip: for a convex regular polygon with \<open>n \<ge> 3\<close> corners and circumradius
  \<open>R\<close>, of either orientation, and \<open>k\<close> smaller in size than the apothem \<open>R * cos (pi / n)\<close>
  (half the edge length divided by the tangent of half the turning angle), \<open>kerf\<close> with
  \<open>k\<close> returns a path on which \<open>kerf\<close> with \<open>-k\<close> returns the original points.
\<close>

theorem kerf_round_trip_regular_polygon:
  assumes "3 \<le> n" and "0 < R" and "\<bar>k\<bar> < R * cos (pi / real n)"
  shows "\<exists>q. kerf (regular_polygon c R a n ccw) k True = Inr q
           \<and> length q = n
           \<and> kerf q (- k) True = Inr (regular_polygon c R a n ccw)"
proof -
  let ?C = "cos (pi / real n)"
  let ?R' = "R + turn_sign ccw * k / ?C"
  have C: "0 < ?C"
    using assms(1) by (rule cos_half_step_pos)
  have "\<bar>turn_sign ccw * k / ?C\<bar> = \<bar>k\<bar> / ?C"
    using C by (simp add: turn_sign_def)
  also have "\<dots> < R"
    using C assms(3) by (simp add: pos_divide_less_eq)
  finally have R': "0 < ?R'"
    by linarith
  have out: "kerf (regular_polygon c R a n ccw) k True = Inr (regular_polygon c ?R' a n ccw)"
    using assms(1,2) by (rule kerf_regular_polygon)
  have "kerf (regular_polygon c ?R' a n ccw) (- k) True =
          Inr (regular_polygon c (?R' + turn_sign ccw * (- k) / ?C) a n ccw)"
    using assms(1) R' by (rule kerf_regular_polygon)
  also have "?R' + turn_sign ccw * (- k) / ?C = R"
    by simp
  finally have inv: "kerf (regular_polygon c ?R' a n ccw) (- k) True = Inr (regular_polygon c R a n ccw)" .
  from out inv show ?thesis
    by (simp add: length_regular_polygon)
qed

text \<open>
  The square with corners \<open>(1, 0), (0, 1), (-1, 0), (0, -1)\<close> and \<open>k = 1/2\<close>.
\<close>

lemma regular_polygon_4:
  "regular_polygon (0, 0) 1 0 4 True = [(1, 0), (0, 1), (- 1, 0), (0, - 1)]"
proof -
  have a: "2 * pi / 4 * 2 = pi" "2 * pi / 4 * 3 = 3 / 2 * pi" "2 * pi / 4 = pi / 2"
    by simp_all
  have b: "cos (pi * 3 / 2) = 0" "sin (pi * 3 / 2) = - 1"
    using cos_3over2_pi sin_3over2_pi by (simp_all add: mult.commute)
  have "[0..<4] = [0, 1, 2, 3]"
    by (simp add: upt_rec)
  then show ?thesis
    by (simp add: regular_polygon_def polygon_angle_def turn_sign_def circlepoint_def vadd_def a b)
qed

theorem kerf_round_trip_regular_polygon_witness:
  "(3::nat) \<le> 4 \<and> (0::real) < 1 \<and> \<bar>1 / 2\<bar> < 1 * cos (pi / real 4)
   \<and> (\<exists>q. kerf [(1, 0), (0, 1), (- 1, 0), (0, - 1)] (1 / 2) True = Inr q \<and> length q = 4
          \<and> kerf q (- (1 / 2)) True = Inr [(1, 0), (0, 1), (- 1, 0), (0, - 1)])"
proof -
  have "sqrt 2 / 2 > 1 / 2"
    using sqrt2_less_2 real_sqrt_gt_1_iff [of 2] by simp
  then have h: "\<bar>1 / 2\<bar> < 1 * cos (pi / real 4)"
    by (simp add: cos_45)
  from kerf_round_trip_regular_polygon [of 4 1 "1 / 2" "(0, 0)" 0 True] h
  show ?thesis
    by (simp add: regular_polygon_4)
qed

section \<open>Properties of the tangent\<close>

text \<open>
  C8. For a point at distance less than \<open>r\<close> from the origin \<open>tangent\<close> returns no value:
  \<open>math.asin\<close> raises ValueError, its argument being greater than 1, or, for the origin
  itself, the division \<open>r / l1\<close> raises ZeroDivisionError.
\<close>

theorem tangent_inside_circle_raises:
  assumes "vlength (x, y) < r"
  shows "tangent x y r = Inl (if vlength (x, y) = 0 then ZeroDivisionError else ValueError)
         \<and> (\<forall>v. tangent x y r \<noteq> Inr v)"
proof (cases "vlength (x, y) = 0")
  case True
  then show ?thesis
    by (simp add: tangent_def py_div_def bind_err_simps Let_def)
next
  case False
  with vlength_nonneg [of "(x, y)"] have pos: "0 < vlength (x, y)"
    by simp
  with assms have "1 < r / vlength (x, y)"
    by simp
  then have "py_asin (r / vlength (x, y)) = Inl ValueError"
    by (simp add: py_asin_def)
  with False show ?thesis
    by (simp add: tangent_def py_div_def bind_err_simps Let_def)
qed

text \<open>
  The point \<open>(3, 4)\<close>, at distance 5, inside the circle of radius 10.
\<close>

theorem tangent_inside_circle_raises_witness:
  "vlength (3, 4) < 10 \<and> tangent 3 4 10 = Inl ValueError \<and> (\<forall>v. tangent 3 4 10 \<noteq> Inr v)"
  using tangent_inside_circle_raises [of 3 4 10] by (simp add: vlength_3_4)

section \<open>Properties of the matrix product\<close>

lemma py_nth_Cons_0: "py_nth (x # xs) 0 = Inr x"
  by (simp add: py_nth_def)

lemma py_nth_Cons_1: "py_nth (x # y # xs) 1 = Inr y"
  by (simp add: py_nth_def)

lemma py_nth_Cons_2: "py_nth (x # y # z # xs) 2 = Inr z"
  by (simp add: py_nth_def)

lemmas py_nth_small = py_nth_Cons_0 py_nth_Cons_1 py_nth_Cons_2

lemma vtransl_2x3:
  "vtransl [x, y] [[a, b, c], [d, e, f]] = Inr [a * x + b * y + c, d * x + e * y + f]"
  by (simp add: vtransl_def vtransl_row_def py_nth_small bind_err_simps)

text \<open>
  The entry \<open>[j][i]\<close> of the result is the sum over \<open>k < 2\<close> of \<open>m0[k][i] * m1[j][k]\<close>:
  the product of the 2x2 part of \<open>m1\<close> with \<open>m0\<close>. The third column of \<open>m1\<close> is not read.
\<close>

lemma mmul_2x3:
  "mmul [[a0, b0, c0], [d0, e0, f0]] [[a1, b1, c1], [d1, e1, f1]] =
     Inr [[a0 * a1 + d0 * b1, b0 * a1 + e0 * b1, c0 * a1 + f0 * b1],
          [a0 * d1 + d0 * e1, b0 * d1 + e0 * e1, c0 * d1 + f0 * e1]]"
  by (simp add: mmul_def py_nth_small bind_err_simps upt_2 upt_3 mmul_step_def py_nth_def)

text \<open>
  C7, as the code has it. For 2x3 matrices, with the translation column of \<open>m1\<close> zero,
  \<open>mmul m0 m1\<close> returns a matrix, and applying it to a point is applying \<open>m0\<close> first and
  \<open>m1\<close> to the result.
\<close>

theorem mmul_zero_translation_m0_then_m1:
  "\<exists>m w r. mmul [[a0, b0, c0], [d0, e0, f0]] [[a1, b1, 0], [d1, e1, 0]] = Inr m
     \<and> vtransl [x, y] [[a0, b0, c0], [d0, e0, f0]] = Inr w
     \<and> vtransl [x, y] m = Inr r
     \<and> vtransl w [[a1, b1, 0], [d1, e1, 0]] = Inr r"
  by (simp add: mmul_2x3 vtransl_2x3 algebra_simps)

text \<open>
  C7 as stated fails: with \<open>m0\<close> the translation by \<open>(1, 0)\<close> and \<open>m1\<close> the scaling by 2,
  \<open>mmul m0 m1\<close> sends the origin to \<open>(2, 0)\<close>, while \<open>m1\<close> and then \<open>m0\<close> send it to
  \<open>(1, 0)\<close>.
\<close>

theorem mmul_not_m1_then_m0:
  "mmul [[1, 0, 1], [0, 1, 0]] [[2, 0, 0], [0, 2, 0]] = Inr [[2, 0, 2], [0, 2, 0]]
   \<and> vtransl [0, 0] [[2, 0, 2], [0, 2, 0]] = Inr [2, 0]
   \<and> vtransl [0, 0] [[2, 0, 0], [0, 2, 0]] = Inr [0, 0]
   \<and> vtransl [0, 0] [[1, 0, 1], [0, 1, 0]] = Inr [1, 0]"
  by (simp add: mmul_2x3 vtransl_2x3)

end
